theory Spec2Isabelle
  imports Main "HOL-Library.Word" "HOL-Library.Multiset" "HOL-Library.Monad_Syntax"
begin

section \<open>Data model of package transaction\<close>

text \<open>
  The Go types, as the builder and the tests use them:
  \<^item> \<open>*big.Int\<close> is an arbitrary-precision integer behind a pointer: \<open>int option\<close>,
    with \<open>None\<close> for the nil pointer;
  \<^item> \<open>uint64\<close> is a 64-bit word;
  \<^item> \<open>common.Address\<close> is \<open>[20]byte\<close> and \<open>common.Hash\<close> is \<open>[32]byte\<close>: words of
    160 and 256 bits (the array read big-endian);
  \<^item> \<open>Call.Data\<close> is a \<open>[]byte\<close> that the builder tests against nil, so it is a byte
    list behind an option, \<open>None\<close> being the nil slice;
  \<^item> the slices \<open>Tx.Calls\<close>, \<open>Tx.AccessList\<close> and \<open>AccessTuple.StorageKeys\<close> are
    only appended to, measured and stored: they are lists, the nil slice being the
    empty list.
\<close>

type_synonym byte = "8 word"
type_synonym uint64 = "64 word"
type_synonym Address = "160 word"
type_synonym Hash = "256 word"

record Call =
  To :: "Address option"
  Value :: "int option"
  Data :: "byte list option"

record AccessTuple =
  Address :: Address
  StorageKeys :: "Hash list"

text \<open>
  Modelled from the spec: the Signature entity (its declaration is not in the sources at
  hand): \<open>r\<close>, \<open>s\<close> are 32-byte big-endian integers, \<open>yParity\<close> is the recovery bit.
\<close>

record Signature =
  R :: "256 word"
  S :: "256 word"
  YParity :: bool

text \<open>
  The struct \<open>Tx\<close>. Its fields are those the builder and \<open>TestTransaction_Validate\<close>
  assign; the two optional signatures are named after the spec's data model.
\<close>

record Tx =
  ChainID :: "int option"
  MaxPriorityFeePerGas :: "int option"
  MaxFeePerGas :: "int option"
  Gas :: uint64
  Calls :: "Call list"
  AccessList :: "AccessTuple list"
  NonceKey :: "int option"
  Nonce :: uint64
  ValidBefore :: uint64
  ValidAfter :: uint64
  FeeToken :: Address
  Signature :: "Signature option"
  FeePayerSignature :: "Signature option"

text \<open>The sentinel errors of errors.go (package transaction) and of package signer.\<close>

datatype error =
  ErrNoSignature
  | ErrNoFeePayerSignature
  | ErrMissingSenderSignature
  | ErrInvalidTransaction
  | ErrInvalidTransactionType
  | ErrInvalidPrivateKey

section \<open>Validator\<close>

text \<open>
  Modelled from the spec: the method \<open>(*Tx).Validate\<close>, which the builder calls and
  \<open>TestTransaction_Validate\<close> exercises, but whose body is not in the sources at hand.
  The spec (4.3) gives its checks in order: \<open>chainID\<close> not null and \<open>> 0\<close>; \<open>gas > 0\<close>;
  \<open>calls\<close> non-empty; every call's \<open>value\<close> not null; \<open>nonceKey\<close> not null. Every
  failure is the one error kind \<open>InvalidTransaction\<close>.
\<close>

fun call_values_present :: "Call list \<Rightarrow> bool" where
  "call_values_present [] = True"
| "call_values_present (c # cs) = (if Value c = None then False else call_values_present cs)"

definition Validate :: "Tx \<Rightarrow> error + unit" where
  "Validate t =
     (if (case ChainID t of None \<Rightarrow> True | Some c \<Rightarrow> \<not> 0 < c) then Inl ErrInvalidTransaction
      else if \<not> 0 < Gas t then Inl ErrInvalidTransaction
      else if length (Calls t) = 0 then Inl ErrInvalidTransaction
      else if \<not> call_values_present (Calls t) then Inl ErrInvalidTransaction
      else if NonceKey t = None then Inl ErrInvalidTransaction
      else Inr ())"

section \<open>Builder\<close>

text \<open>
  \<open>Builder\<close> holds a pointer to the transaction it builds, and every method has a
  pointer receiver and returns it. Pointers are indices into the two object tables of
  a heap. Dereferencing an index outside its table (a nil or dangling pointer) is the
  runtime panic of Go: the methods return \<open>None\<close> there.
\<close>

record Builder =
  tx :: nat

record heap =
  txs :: "Tx list"
  builders :: "Builder list"

definition load :: "'a list \<Rightarrow> nat \<Rightarrow> 'a option" where
  "load xs p = (if p < length xs then Some (xs ! p) else None)"

text \<open>The transaction a builder handle holds, read through both pointers.\<close>

definition held :: "heap \<Rightarrow> nat \<Rightarrow> Tx option" where
  "held h b = (case load (builders h) b of None \<Rightarrow> None | Some B \<Rightarrow> load (txs h) (tx B))"

text \<open>
  The statement shape shared by the setters: \<open>b.tx.F = v; return b\<close>. The held
  transaction is overwritten in its table; the handle comes back as it went in.
\<close>

definition assign_tx :: "heap \<Rightarrow> nat \<Rightarrow> (Tx \<Rightarrow> Tx) \<Rightarrow> (heap \<times> nat) option" where
  "assign_tx h b f =
     (case load (builders h) b of
        None \<Rightarrow> None
      | Some B \<Rightarrow>
          (case load (txs h) (tx B) of
             None \<Rightarrow> None
           | Some t \<Rightarrow> Some (h\<lparr>txs := (txs h)[tx B := f t]\<rparr>, b)))"

text \<open>
  Modelled from the spec: the constant \<open>DefaultNonceKey\<close>, declared outside the sources
  at hand; the spec's data model gives the default of \<open>nonceKey\<close> as 0.
\<close>

definition DefaultNonceKey :: int where
  "DefaultNonceKey = 0"

text \<open>
  \<open>NewBuilder\<close> allocates the transaction, then the builder pointing to it. The fields
  the composite literal does not name have Go's zero values.
\<close>

definition NewBuilder :: "heap \<Rightarrow> int option \<Rightarrow> heap \<times> nat" where
  "NewBuilder h chainID =
     (let p = length (txs h);
          t = \<lparr>ChainID = chainID,
               MaxPriorityFeePerGas = Some 0,
               MaxFeePerGas = Some 0,
               Gas = 0,
               Calls = [],
               AccessList = [],
               NonceKey = Some DefaultNonceKey,
               Nonce = 0,
               ValidBefore = 0,
               ValidAfter = 0,
               FeeToken = 0,
               Signature = None,
               FeePayerSignature = None\<rparr>;
          b = length (builders h)
      in (h\<lparr>txs := txs h @ [t], builders := builders h @ [\<lparr>tx = p\<rparr>]\<rparr>, b))"

definition SetGas :: "heap \<Rightarrow> nat \<Rightarrow> uint64 \<Rightarrow> (heap \<times> nat) option" where
  "SetGas h b gas = assign_tx h b (\<lambda>t. t\<lparr>Gas := gas\<rparr>)"

definition SetMaxFeePerGas :: "heap \<Rightarrow> nat \<Rightarrow> int option \<Rightarrow> (heap \<times> nat) option" where
  "SetMaxFeePerGas h b maxFee = assign_tx h b (\<lambda>t. t\<lparr>MaxFeePerGas := maxFee\<rparr>)"

definition SetMaxPriorityFeePerGas :: "heap \<Rightarrow> nat \<Rightarrow> int option \<Rightarrow> (heap \<times> nat) option" where
  "SetMaxPriorityFeePerGas h b maxPriorityFee =
     assign_tx h b (\<lambda>t. t\<lparr>MaxPriorityFeePerGas := maxPriorityFee\<rparr>)"

definition SetNonce :: "heap \<Rightarrow> nat \<Rightarrow> uint64 \<Rightarrow> (heap \<times> nat) option" where
  "SetNonce h b nonce = assign_tx h b (\<lambda>t. t\<lparr>Nonce := nonce\<rparr>)"

definition SetNonceKey :: "heap \<Rightarrow> nat \<Rightarrow> int option \<Rightarrow> (heap \<times> nat) option" where
  "SetNonceKey h b nonceKey = assign_tx h b (\<lambda>t. t\<lparr>NonceKey := nonceKey\<rparr>)"

definition SetValidBefore :: "heap \<Rightarrow> nat \<Rightarrow> uint64 \<Rightarrow> (heap \<times> nat) option" where
  "SetValidBefore h b validBefore = assign_tx h b (\<lambda>t. t\<lparr>ValidBefore := validBefore\<rparr>)"

definition SetValidAfter :: "heap \<Rightarrow> nat \<Rightarrow> uint64 \<Rightarrow> (heap \<times> nat) option" where
  "SetValidAfter h b validAfter = assign_tx h b (\<lambda>t. t\<lparr>ValidAfter := validAfter\<rparr>)"

definition SetFeeToken :: "heap \<Rightarrow> nat \<Rightarrow> Address \<Rightarrow> (heap \<times> nat) option" where
  "SetFeeToken h b token = assign_tx h b (\<lambda>t. t\<lparr>FeeToken := token\<rparr>)"

text \<open>
  \<open>AddCall\<close> and \<open>AddContractCreation\<close> replace a nil \<open>value\<close> by \<open>big.NewInt(0)\<close> and a
  nil \<open>data\<close> by \<open>[]byte{}\<close> before they append. \<open>AddCall\<close> takes the address by value
  and stores a pointer to its copy, which is never nil.
\<close>

definition AddCall ::
  "heap \<Rightarrow> nat \<Rightarrow> Address \<Rightarrow> int option \<Rightarrow> byte list option \<Rightarrow> (heap \<times> nat) option" where
  "AddCall h b to val data =
     (let val = (if val = None then Some 0 else val);
          data = (if data = None then Some [] else data)
      in assign_tx h b
           (\<lambda>t. t\<lparr>Calls := Calls t @ [\<lparr>To = Some to, Value = val, Data = data\<rparr>]\<rparr>))"

definition AddContractCreation ::
  "heap \<Rightarrow> nat \<Rightarrow> int option \<Rightarrow> byte list option \<Rightarrow> (heap \<times> nat) option" where
  "AddContractCreation h b val data =
     (let val = (if val = None then Some 0 else val);
          data = (if data = None then Some [] else data)
      in assign_tx h b
           (\<lambda>t. t\<lparr>Calls := Calls t @ [\<lparr>To = None, Value = val, Data = data\<rparr>]\<rparr>))"

definition AddAccessListEntry ::
  "heap \<Rightarrow> nat \<Rightarrow> Address \<Rightarrow> Hash list \<Rightarrow> (heap \<times> nat) option" where
  "AddAccessListEntry h b address storageKeys =
     assign_tx h b
       (\<lambda>t. t\<lparr>AccessList := AccessList t @ [\<lparr>Address = address, StorageKeys = storageKeys\<rparr>]\<rparr>)"

text \<open>\<open>Build\<close> returns the pointer \<open>b.tx\<close>, whatever the transaction holds.\<close>

definition Build :: "heap \<Rightarrow> nat \<Rightarrow> nat option" where
  "Build h b = (case load (builders h) b of None \<Rightarrow> None | Some B \<Rightarrow> Some (tx B))"

text \<open>
  \<open>BuildAndValidate\<close> returns \<open>(nil, err)\<close> when \<open>Validate\<close> returns an error, here
  \<open>Some (Inl err)\<close>, and \<open>(b.tx, nil)\<close> otherwise, here \<open>Some (Inr p)\<close> with the pointer.
\<close>

definition BuildAndValidate :: "heap \<Rightarrow> nat \<Rightarrow> (error + nat) option" where
  "BuildAndValidate h b =
     (case load (builders h) b of
        None \<Rightarrow> None
      | Some B \<Rightarrow>
          (case load (txs h) (tx B) of
             None \<Rightarrow> None
           | Some t \<Rightarrow>
               (case Validate t of
                  Inl err \<Rightarrow> Some (Inl err)
                | Inr _ \<Rightarrow> Some (Inr (tx B)))))"

section \<open>Chains of builder calls\<close>

text \<open>
  A fluent chain \<open>NewBuilder(id).SetGas(g).AddCall(a, v, d)...\<close> is a list of method
  calls, each invoked on the handle the previous one returned.
\<close>

datatype call =
  CallSetGas uint64
  | CallSetMaxFeePerGas "int option"
  | CallSetMaxPriorityFeePerGas "int option"
  | CallSetNonce uint64
  | CallSetNonceKey "int option"
  | CallSetValidBefore uint64
  | CallSetValidAfter uint64
  | CallSetFeeToken Address
  | CallAddCall Address "int option" "byte list option"
  | CallAddContractCreation "int option" "byte list option"
  | CallAddAccessListEntry Address "Hash list"

fun invoke :: "heap \<Rightarrow> nat \<Rightarrow> call \<Rightarrow> (heap \<times> nat) option" where
  "invoke h b (CallSetGas gas) = SetGas h b gas"
| "invoke h b (CallSetMaxFeePerGas maxFee) = SetMaxFeePerGas h b maxFee"
| "invoke h b (CallSetMaxPriorityFeePerGas maxPriorityFee) = SetMaxPriorityFeePerGas h b maxPriorityFee"
| "invoke h b (CallSetNonce nonce) = SetNonce h b nonce"
| "invoke h b (CallSetNonceKey nonceKey) = SetNonceKey h b nonceKey"
| "invoke h b (CallSetValidBefore validBefore) = SetValidBefore h b validBefore"
| "invoke h b (CallSetValidAfter validAfter) = SetValidAfter h b validAfter"
| "invoke h b (CallSetFeeToken token) = SetFeeToken h b token"
| "invoke h b (CallAddCall to val data) = AddCall h b to val data"
| "invoke h b (CallAddContractCreation val data) = AddContractCreation h b val data"
| "invoke h b (CallAddAccessListEntry address storageKeys) = AddAccessListEntry h b address storageKeys"

fun chain :: "heap \<Rightarrow> nat \<Rightarrow> call list \<Rightarrow> (heap \<times> nat) option" where
  "chain h b [] = Some (h, b)"
| "chain h b (c # cs) = (case invoke h b c of None \<Rightarrow> None | Some (h', b') \<Rightarrow> chain h' b' cs)"

text \<open>The Go name of the method a call invokes.\<close>

fun method_of :: "call \<Rightarrow> string" where
  "method_of (CallSetGas _) = ''SetGas''"
| "method_of (CallSetMaxFeePerGas _) = ''SetMaxFeePerGas''"
| "method_of (CallSetMaxPriorityFeePerGas _) = ''SetMaxPriorityFeePerGas''"
| "method_of (CallSetNonce _) = ''SetNonce''"
| "method_of (CallSetNonceKey _) = ''SetNonceKey''"
| "method_of (CallSetValidBefore _) = ''SetValidBefore''"
| "method_of (CallSetValidAfter _) = ''SetValidAfter''"
| "method_of (CallSetFeeToken _) = ''SetFeeToken''"
| "method_of (CallAddCall _ _ _) = ''AddCall''"
| "method_of (CallAddContractCreation _ _) = ''AddContractCreation''"
| "method_of (CallAddAccessListEntry _ _) = ''AddAccessListEntry''"

text \<open>The field of \<open>Tx\<close> a method writes.\<close>

datatype field =
  FGas | FMaxFeePerGas | FMaxPriorityFeePerGas | FNonce | FNonceKey
  | FValidBefore | FValidAfter | FFeeToken | FCalls | FAccessList

fun field_of :: "call \<Rightarrow> field" where
  "field_of (CallSetGas _) = FGas"
| "field_of (CallSetMaxFeePerGas _) = FMaxFeePerGas"
| "field_of (CallSetMaxPriorityFeePerGas _) = FMaxPriorityFeePerGas"
| "field_of (CallSetNonce _) = FNonce"
| "field_of (CallSetNonceKey _) = FNonceKey"
| "field_of (CallSetValidBefore _) = FValidBefore"
| "field_of (CallSetValidAfter _) = FValidAfter"
| "field_of (CallSetFeeToken _) = FFeeToken"
| "field_of (CallAddCall _ _ _) = FCalls"
| "field_of (CallAddContractCreation _ _) = FCalls"
| "field_of (CallAddAccessListEntry _ _) = FAccessList"

text \<open>The assignment a method performs on the held transaction.\<close>

fun effect :: "call \<Rightarrow> Tx \<Rightarrow> Tx" where
  "effect (CallSetGas gas) t = t\<lparr>Gas := gas\<rparr>"
| "effect (CallSetMaxFeePerGas maxFee) t = t\<lparr>MaxFeePerGas := maxFee\<rparr>"
| "effect (CallSetMaxPriorityFeePerGas maxPriorityFee) t = t\<lparr>MaxPriorityFeePerGas := maxPriorityFee\<rparr>"
| "effect (CallSetNonce nonce) t = t\<lparr>Nonce := nonce\<rparr>"
| "effect (CallSetNonceKey nonceKey) t = t\<lparr>NonceKey := nonceKey\<rparr>"
| "effect (CallSetValidBefore validBefore) t = t\<lparr>ValidBefore := validBefore\<rparr>"
| "effect (CallSetValidAfter validAfter) t = t\<lparr>ValidAfter := validAfter\<rparr>"
| "effect (CallSetFeeToken token) t = t\<lparr>FeeToken := token\<rparr>"
| "effect (CallAddCall to val data) t =
     t\<lparr>Calls := Calls t @ [\<lparr>To = Some to,
                               Value = (case val of None \<Rightarrow> Some 0 | Some v \<Rightarrow> Some v),
                               Data = (case data of None \<Rightarrow> Some [] | Some d \<Rightarrow> Some d)\<rparr>]\<rparr>"
| "effect (CallAddContractCreation val data) t =
     t\<lparr>Calls := Calls t @ [\<lparr>To = None,
                               Value = (case val of None \<Rightarrow> Some 0 | Some v \<Rightarrow> Some v),
                               Data = (case data of None \<Rightarrow> Some [] | Some d \<Rightarrow> Some d)\<rparr>]\<rparr>"
| "effect (CallAddAccessListEntry address storageKeys) t =
     t\<lparr>AccessList := AccessList t @ [\<lparr>Address = address, StorageKeys = storageKeys\<rparr>]\<rparr>"

section \<open>Example objects\<close>

text \<open>
  The heap after \<open>NewBuilder(big.NewInt(42424))\<close> on an empty heap, the transaction
  its builder holds, and the "valid transaction" case of \<open>TestTransaction_Validate\<close>.
\<close>

definition example_heap :: heap where
  "example_heap = fst (NewBuilder \<lparr>txs = [], builders = []\<rparr> (Some 42424))"

definition example_tx :: Tx where
  "example_tx =
     \<lparr>ChainID = Some 42424, MaxPriorityFeePerGas = Some 0, MaxFeePerGas = Some 0, Gas = 0,
      Calls = [], AccessList = [], NonceKey = Some 0, Nonce = 0, ValidBefore = 0,
      ValidAfter = 0, FeeToken = 0, Signature = None, FeePayerSignature = None\<rparr>"

definition valid_tx :: Tx where
  "valid_tx =
     \<lparr>ChainID = Some 42424, MaxPriorityFeePerGas = Some 1000000000,
      MaxFeePerGas = Some 2000000000, Gas = 100000,
      Calls = [\<lparr>To = Some 0x1234567890123456789012345678901234567890, Value = Some 0, Data = Some []\<rparr>],
      AccessList = [], NonceKey = Some 0, Nonce = 1, ValidBefore = 0, ValidAfter = 0,
      FeeToken = 0, Signature = None, FeePayerSignature = None\<rparr>"

definition valid_heap :: heap where
  "valid_heap = \<lparr>txs = [valid_tx], builders = [\<lparr>tx = 0\<rparr>]\<rparr>"

section \<open>Codec\<close>

text \<open>
  Modelled from the spec: the Codec, whose source is not at hand. The spec (4.4) fixes
  the envelope tag \<open>0x76\<close>, the order of the fields, the minimal big-endian form of
  every integer, the widths of addresses (20 bytes), storage keys and \<open>r\<close>, \<open>s\<close>
  (32 bytes) and of \<open>yParity\<close> (one byte, 0 or 1), and that each field is length-prefixed
  "consistent with typed-transaction envelope conventions". The length prefixes are
  taken to be those of RLP, which the typed-transaction envelopes use: a byte string is
  prefixed with \<open>0x80 + length\<close> (a single byte below \<open>0x80\<close> stands for itself), a
  list with \<open>0xc0 + length\<close>, and from 56 bytes on the prefix is \<open>0xb7\<close> (or \<open>0xf7\<close>)
  plus the number of bytes of the length, followed by the length, big-endian.
\<close>

text \<open>The minimal big-endian bytes of a number (none for 0), and their value.\<close>

fun be_bytes :: "nat \<Rightarrow> byte list" where
  "be_bytes n = (if n = 0 then [] else be_bytes (n div 256) @ [of_nat (n mod 256)])"

declare be_bytes.simps [simp del]

definition be_nat :: "byte list \<Rightarrow> nat" where
  "be_nat bs = foldl (\<lambda>a b. a * 256 + unat b) 0 bs"

text \<open>The big-endian bytes of a number at a fixed width.\<close>

fun be_fixed :: "nat \<Rightarrow> nat \<Rightarrow> byte list" where
  "be_fixed 0 n = []"
| "be_fixed (Suc k) n = be_fixed k (n div 256) @ [of_nat (n mod 256)]"

subsection \<open>Length prefixes\<close>

definition rlp_header :: "nat \<Rightarrow> nat \<Rightarrow> byte list" where
  "rlp_header base n =
     (if n < 56 then [of_nat (base + n)]
      else of_nat (base + 55 + length (be_bytes n)) # be_bytes n)"

definition rlp_bytes :: "byte list \<Rightarrow> byte list" where
  "rlp_bytes s = (if length s = 1 \<and> unat (hd s) < 128 then s else rlp_header 128 (length s) @ s)"

definition rlp_list :: "byte list \<Rightarrow> byte list" where
  "rlp_list payload = rlp_header 192 (length payload) @ payload"

text \<open>
  Reading one item off the front of the input: whether it is a list, its content, and
  the bytes after it. An item whose announced length exceeds the input, a length
  written with a leading zero byte or in the long form though below 56, and a single
  byte below \<open>0x80\<close> written with a prefix, are malformed.
\<close>

definition split_long :: "bool \<Rightarrow> nat \<Rightarrow> byte list \<Rightarrow> (bool \<times> byte list \<times> byte list) option" where
  "split_long is_list k bs =
     (if length bs < k then None
      else let n = be_nat (take k bs); body = drop k bs
           in if unat (hd bs) = 0 \<or> n < 56 \<or> length body < n then None
              else Some (is_list, take n body, drop n body))"

definition split_short :: "bool \<Rightarrow> nat \<Rightarrow> byte list \<Rightarrow> (bool \<times> byte list \<times> byte list) option" where
  "split_short is_list n bs =
     (if length bs < n then None else Some (is_list, take n bs, drop n bs))"

definition split_item :: "byte list \<Rightarrow> (bool \<times> byte list \<times> byte list) option" where
  "split_item bs =
     (case bs of
        [] \<Rightarrow> None
      | b # rest \<Rightarrow>
          (let tag = unat b
           in if tag < 128 then Some (False, [b], rest)
              else if tag < 184 then
                (if tag = 129 \<and> rest \<noteq> [] \<and> unat (hd rest) < 128 then None
                 else split_short False (tag - 128) rest)
              else if tag < 192 then split_long False (tag - 183) rest
              else if tag < 248 then split_short True (tag - 192) rest
              else split_long True (tag - 247) rest))"

subsection \<open>Encoding\<close>

text \<open>
  Modelled from the spec: the encoder of the Codec (4.4).
  The spec requires a null field and a zero-valued one to have different encodings
  (4.4; 4.1 and 9 on a null \<open>maxFeePerGas\<close> against 0) and names no byte for the null.
  An absent (nil) big integer and a nil \<open>data\<close> are written as the empty list, which
  no integer and no byte sequence is written as. The absence marker of \<open>to\<close> is the
  empty string. \<open>yParity\<close> is the single byte 0 or 1.
\<close>

definition enc_null :: "byte list" where
  "enc_null = rlp_list []"

definition enc_uint :: "nat \<Rightarrow> byte list" where
  "enc_uint n = rlp_bytes (be_bytes n)"

definition enc_big :: "int option \<Rightarrow> byte list" where
  "enc_big v = (case v of None \<Rightarrow> enc_null | Some i \<Rightarrow> enc_uint (nat i))"

definition enc_u64 :: "uint64 \<Rightarrow> byte list" where
  "enc_u64 w = enc_uint (unat w)"

definition enc_address :: "Address \<Rightarrow> byte list" where
  "enc_address a = rlp_bytes (be_fixed 20 (unat a))"

definition enc_to :: "Address option \<Rightarrow> byte list" where
  "enc_to to = (case to of None \<Rightarrow> rlp_bytes [] | Some a \<Rightarrow> enc_address a)"

definition enc_hash :: "Hash \<Rightarrow> byte list" where
  "enc_hash h = rlp_bytes (be_fixed 32 (unat h))"

definition enc_data :: "byte list option \<Rightarrow> byte list" where
  "enc_data d = (case d of None \<Rightarrow> enc_null | Some s \<Rightarrow> rlp_bytes s)"

definition enc_parity :: "bool \<Rightarrow> byte list" where
  "enc_parity y = rlp_bytes [if y then 1 else 0]"

definition enc_signature :: "Signature \<Rightarrow> byte list" where
  "enc_signature sg = enc_hash (R sg) @ enc_hash (S sg) @ enc_parity (YParity sg)"

definition enc_optional_signature :: "Signature option \<Rightarrow> byte list" where
  "enc_optional_signature sg = (case sg of None \<Rightarrow> [] | Some s \<Rightarrow> enc_signature s)"

definition enc_call :: "Call \<Rightarrow> byte list" where
  "enc_call c = rlp_list (enc_to (To c) @ enc_big (Value c) @ enc_data (Data c))"

definition enc_access_tuple :: "AccessTuple \<Rightarrow> byte list" where
  "enc_access_tuple a =
     rlp_list (enc_address (Address a) @ rlp_list (concat (map enc_hash (StorageKeys a))))"

text \<open>The eleven fields every transaction has, in the order of the spec.\<close>

definition enc_fields :: "Tx \<Rightarrow> byte list" where
  "enc_fields t =
     enc_big (ChainID t) @ enc_u64 (Nonce t) @ enc_big (NonceKey t)
     @ enc_big (MaxPriorityFeePerGas t) @ enc_big (MaxFeePerGas t) @ enc_u64 (Gas t)
     @ enc_address (FeeToken t)
     @ rlp_list (concat (map enc_call (Calls t)))
     @ rlp_list (concat (map enc_access_tuple (AccessList t)))
     @ enc_u64 (ValidAfter t) @ enc_u64 (ValidBefore t)"

text \<open>Then, only if present, the sender signature, and the fee-payer signature.\<close>

definition enc_payload :: "Tx \<Rightarrow> byte list" where
  "enc_payload t =
     enc_fields t @ enc_optional_signature (Signature t)
     @ enc_optional_signature (FeePayerSignature t)"

definition encode_tx :: "Tx \<Rightarrow> byte list" where
  "encode_tx t = 0x76 # rlp_list (enc_payload t)"

subsection \<open>Decoding\<close>

type_synonym 'a parser = "byte list \<Rightarrow> ('a \<times> byte list) option"

definition take_string :: "byte list parser" where
  "take_string bs =
     (case split_item bs of
        None \<Rightarrow> None
      | Some (is_list, s, rest) \<Rightarrow> if is_list then None else Some (s, rest))"

definition take_list :: "byte list parser" where
  "take_list bs =
     (case split_item bs of
        None \<Rightarrow> None
      | Some (is_list, p, rest) \<Rightarrow> if is_list then Some (p, rest) else None)"

text \<open>
  A field that may be null: the empty list is the null, a byte string is the value, and
  a list that is not empty is malformed.
\<close>

definition take_nullable :: "byte list option parser" where
  "take_nullable bs =
     (case split_item bs of
        None \<Rightarrow> None
      | Some (is_list, s, rest) \<Rightarrow>
          if is_list then (if s = [] then Some (None, rest) else None)
          else Some (Some s, rest))"

text \<open>An integer with a leading zero byte is not minimal, and rejected.\<close>

definition minimal :: "byte list \<Rightarrow> bool" where
  "minimal s = (case s of [] \<Rightarrow> True | b # _ \<Rightarrow> unat b \<noteq> 0)"

definition take_big :: "int option parser" where
  "take_big bs =
     do { (v, rest) \<leftarrow> take_nullable bs;
          case v of
            None \<Rightarrow> Some (None, rest)
          | Some s \<Rightarrow> if minimal s then Some (Some (int (be_nat s)), rest) else None }"

text \<open>An integer of more than 8 bytes is out of the range of a 64-bit field.\<close>

definition take_u64 :: "uint64 parser" where
  "take_u64 bs =
     do { (s, rest) \<leftarrow> take_string bs;
          if minimal s \<and> length s \<le> 8 then Some (of_nat (be_nat s), rest) else None }"

definition take_address :: "Address parser" where
  "take_address bs =
     do { (s, rest) \<leftarrow> take_string bs;
          if length s = 20 then Some (of_nat (be_nat s), rest) else None }"

definition take_to :: "Address option parser" where
  "take_to bs =
     do { (s, rest) \<leftarrow> take_string bs;
          if length s = 0 then Some (None, rest)
          else if length s = 20 then Some (Some (of_nat (be_nat s)), rest)
          else None }"

definition take_hash :: "Hash parser" where
  "take_hash bs =
     do { (s, rest) \<leftarrow> take_string bs;
          if length s = 32 then Some (of_nat (be_nat s), rest) else None }"

definition take_data :: "byte list option parser" where
  "take_data bs = take_nullable bs"

definition take_parity :: "bool parser" where
  "take_parity bs =
     do { (s, rest) \<leftarrow> take_string bs;
          if s = [0] then Some (False, rest) else if s = [1] then Some (True, rest) else None }"

definition take_signature :: "Signature parser" where
  "take_signature bs =
     do { (r, bs) \<leftarrow> take_hash bs;
          (s, bs) \<leftarrow> take_hash bs;
          (y, bs) \<leftarrow> take_parity bs;
          Some (\<lparr>R = r, S = s, YParity = y\<rparr>, bs) }"

text \<open>
  The loop over the items of a list payload: parse an item while bytes remain. Every
  item takes at least one byte, so as many rounds as the payload has bytes are enough;
  \<open>take_all\<close> gives the loop that many.
\<close>

fun take_many :: "'a parser \<Rightarrow> nat \<Rightarrow> byte list \<Rightarrow> 'a list option" where
  "take_many p 0 bs = (if bs = [] then Some [] else None)"
| "take_many p (Suc n) bs =
     (if bs = [] then Some []
      else do { (x, rest) \<leftarrow> p bs; xs \<leftarrow> take_many p n rest; Some (x # xs) })"

definition take_all :: "'a parser \<Rightarrow> byte list \<Rightarrow> 'a list option" where
  "take_all p bs = take_many p (length bs) bs"

definition take_call :: "Call parser" where
  "take_call bs =
     do { (p, rest) \<leftarrow> take_list bs;
          (to, p) \<leftarrow> take_to p;
          (v, p) \<leftarrow> take_big p;
          (d, p) \<leftarrow> take_data p;
          if p = [] then Some (\<lparr>To = to, Value = v, Data = d\<rparr>, rest) else None }"

definition take_access_tuple :: "AccessTuple parser" where
  "take_access_tuple bs =
     do { (p, rest) \<leftarrow> take_list bs;
          (a, p) \<leftarrow> take_address p;
          (ks, p) \<leftarrow> take_list p;
          keys \<leftarrow> take_all take_hash ks;
          if p = [] then Some (\<lparr>Address = a, StorageKeys = keys\<rparr>, rest) else None }"

text \<open>
  The signatures are read from the bytes that remain after \<open>validBefore\<close>: none, one
  signature, or two.
\<close>

definition take_signatures :: "byte list \<Rightarrow> (Signature option \<times> Signature option) option" where
  "take_signatures p =
     (if p = [] then Some (None, None)
      else do { (sg, p) \<leftarrow> take_signature p;
                if p = [] then Some (Some sg, None)
                else do { (fp, p) \<leftarrow> take_signature p;
                          if p = [] then Some (Some sg, Some fp) else None } })"

definition decode_payload :: "byte list \<Rightarrow> Tx option" where
  "decode_payload p =
     do { (chainID, p) \<leftarrow> take_big p;
          (nonce, p) \<leftarrow> take_u64 p;
          (nonceKey, p) \<leftarrow> take_big p;
          (maxPriorityFeePerGas, p) \<leftarrow> take_big p;
          (maxFeePerGas, p) \<leftarrow> take_big p;
          (gas, p) \<leftarrow> take_u64 p;
          (feeToken, p) \<leftarrow> take_address p;
          (cs, p) \<leftarrow> take_list p;
          calls \<leftarrow> take_all take_call cs;
          (al, p) \<leftarrow> take_list p;
          accessList \<leftarrow> take_all take_access_tuple al;
          (validAfter, p) \<leftarrow> take_u64 p;
          (validBefore, p) \<leftarrow> take_u64 p;
          (sg, fp) \<leftarrow> take_signatures p;
          Some \<lparr>ChainID = chainID, MaxPriorityFeePerGas = maxPriorityFeePerGas,
                MaxFeePerGas = maxFeePerGas, Gas = gas, Calls = calls,
                AccessList = accessList, NonceKey = nonceKey, Nonce = nonce,
                ValidBefore = validBefore, ValidAfter = validAfter, FeeToken = feeToken,
                Signature = sg, FeePayerSignature = fp\<rparr> }"

definition decode_fields :: "byte list \<Rightarrow> Tx option" where
  "decode_fields bs =
     do { (p, rest) \<leftarrow> take_list bs;
          if rest = [] then decode_payload p else None }"

text \<open>
  Modelled from the spec: the decoder of the Codec (4.4).
  The leading byte decides the error kind: anything but \<open>0x76\<close> is
  \<open>InvalidTransactionType\<close>, and every other failure, the empty input included, is
  \<open>InvalidTransaction\<close>.
\<close>

definition decode_tx :: "byte list \<Rightarrow> error + Tx" where
  "decode_tx bs =
     (case bs of
        [] \<Rightarrow> Inl ErrInvalidTransaction
      | b # rest \<Rightarrow>
          if b \<noteq> 0x76 then Inl ErrInvalidTransactionType
          else (case decode_fields rest of
                  None \<Rightarrow> Inl ErrInvalidTransaction
                | Some t \<Rightarrow> Inr t))"

text \<open>
  The transactions of the data model (3), in which every integer is "non-negative" and
  the fee-payer signature "may only be set once \<open>signature\<close> is set": no integer that is
  present is negative, and there is no fee-payer signature without a sender signature.
  Any field may be null. The encoding is short enough for the 8-byte length of a long
  prefix, as every byte sequence that fits a 64-bit address space is.
\<close>

definition natural :: "int option \<Rightarrow> bool" where
  "natural v = (case v of None \<Rightarrow> True | Some i \<Rightarrow> 0 \<le> i)"

definition wf_call :: "Call \<Rightarrow> bool" where
  "wf_call c = natural (Value c)"

definition encodable :: "Tx \<Rightarrow> bool" where
  "encodable t =
     (natural (ChainID t) \<and> natural (NonceKey t) \<and> natural (MaxPriorityFeePerGas t)
      \<and> natural (MaxFeePerGas t) \<and> list_all wf_call (Calls t)
      \<and> (Signature t = None \<longrightarrow> FeePayerSignature t = None)
      \<and> length (encode_tx t) < 2 ^ 64)"

subsection \<open>Hex strings\<close>






section \<open>Signing protocol\<close>



text \<open>
  Modelled from the spec: \<open>SigningHash\<close> and \<open>AddFeePayerSignature\<close> (4.5), whose source
  is not at hand. The digest and the signing capability are the external collaborators
  of the spec (6), taken as parameters: \<open>digest\<close> maps bytes to a 32-byte hash, and
  \<open>sign key hash\<close> is a signature or an error. The capability "fails with
  \<open>InvalidPrivateKey\<close> on malformed key material" (6), a failure of the signing
  primitive "propagates as an ordinary error" (5), and every error is returned at the
  point of detection (7); \<open>signer.Sign\<close> of the package documentation returns a signature
  and an error. \<open>SigningHash\<close> digests the encoding with both signatures absent.
  \<open>AddFeePayerSignature\<close> first fails with \<open>MissingSenderSignature\<close> on an unsigned
  transaction; otherwise it signs the digest of the encoding with the sender signature
  and without a fee-payer signature, returns the error of the signing capability if
  there is one, and sets \<open>feePayerSignature\<close> if there is none.
\<close>

definition SigningHash :: "(byte list \<Rightarrow> Hash) \<Rightarrow> Tx \<Rightarrow> Hash" where
  "SigningHash digest t = digest (encode_tx (t\<lparr>Signature := None, FeePayerSignature := None\<rparr>))"

definition AddFeePayerSignature ::
  "(byte list \<Rightarrow> Hash) \<Rightarrow> ('k \<Rightarrow> Hash \<Rightarrow> error + Signature) \<Rightarrow> Tx \<Rightarrow> 'k \<Rightarrow> error + Tx" where
  "AddFeePayerSignature digest sign t feePayerKey =
     (case Signature t of
        None \<Rightarrow> Inl ErrMissingSenderSignature
      | Some _ \<Rightarrow>
          (case sign feePayerKey (digest (encode_tx (t\<lparr>FeePayerSignature := None\<rparr>))) of
             Inl e \<Rightarrow> Inl e
           | Inr sg \<Rightarrow> Inr (t\<lparr>FeePayerSignature := Some sg\<rparr>)))"

text \<open>
  The scenario transaction of the spec (8): chain 42424, gas 100000, one call of value
  500 with data \<open>aa bb\<close>; its two signatures are the parameters. The transaction of the
  row "multiple calls valid" of \<open>TestTransaction_Validate\<close>, whose fee fields are nil;
  its fee fields and its signatures are the parameters. A stand-in digest and a stand-in
  signing capability that rejects the key 0, to run the signing protocol on them.
\<close>

definition wire_tx :: "Signature option \<Rightarrow> Signature option \<Rightarrow> Tx" where
  "wire_tx sg fp =
     \<lparr>ChainID = Some 42424, MaxPriorityFeePerGas = Some 0, MaxFeePerGas = Some 0, Gas = 100000,
      Calls = [\<lparr>To = Some 0x1234567890123456789012345678901234567890, Value = Some 500,
                Data = Some [0xaa, 0xbb]\<rparr>],
      AccessList = [], NonceKey = Some 0, Nonce = 0, ValidBefore = 0, ValidAfter = 0,
      FeeToken = 0, Signature = sg, FeePayerSignature = fp\<rparr>"


definition sender_sig :: Signature where
  "sender_sig = \<lparr>R = 1, S = 2, YParity = True\<rparr>"



definition toy_digest :: "byte list \<Rightarrow> Hash" where
  "toy_digest bs = of_nat (be_nat bs)"

definition toy_signature :: "nat \<Rightarrow> Hash \<Rightarrow> Signature" where
  "toy_signature k h = \<lparr>R = h, S = of_nat k, YParity = False\<rparr>"

definition toy_sign :: "nat \<Rightarrow> Hash \<Rightarrow> error + Signature" where
  "toy_sign k h = (if k = 0 then Inl ErrInvalidPrivateKey else Inr (toy_signature k h))"


section \<open>Facts about the heap and the builder\<close>

lemma assign_tx_cong: "(\<And>t. f t = g t) \<Longrightarrow> assign_tx h b f = assign_tx h b g"
  by (simp add: assign_tx_def split: option.splits)

lemma invoke_effect: "invoke h b c = assign_tx h b (effect c)"
  by (cases c)
     (auto simp: SetGas_def SetMaxFeePerGas_def SetMaxPriorityFeePerGas_def SetNonce_def
        SetNonceKey_def SetValidBefore_def SetValidAfter_def SetFeeToken_def AddCall_def
        AddContractCreation_def AddAccessListEntry_def Let_def split: option.splits
        intro!: assign_tx_cong)

lemma assign_tx_eq:
  "held h b = Some t \<Longrightarrow>
   assign_tx h b f = Some (h\<lparr>txs := (txs h)[tx (builders h ! b) := f t]\<rparr>, b)"
  by (auto simp: held_def assign_tx_def load_def split: option.splits if_splits)

lemma held_assigned:
  "held h b = Some t \<Longrightarrow> held (h\<lparr>txs := (txs h)[tx (builders h ! b) := u]\<rparr>) b = Some u"
  by (auto simp: held_def load_def split: option.splits if_splits)

lemma chain_fold:
  "held h b = Some t \<Longrightarrow>
   chain h b cs = Some (h\<lparr>txs := (txs h)[tx (builders h ! b) := fold effect cs t]\<rparr>, b)"
proof (induction cs arbitrary: h t)
  case Nil
  then have "(txs h)[tx (builders h ! b) := t] = txs h"
    by (auto simp: held_def load_def split: option.splits if_splits)
  then show ?case by simp
next
  case (Cons c cs)
  let ?h = "h\<lparr>txs := (txs h)[tx (builders h ! b) := effect c t]\<rparr>"
  have "held ?h b = Some (effect c t)"
    using Cons.prems by (rule held_assigned)
  from Cons.IH [OF this] show ?case
    using Cons.prems by (simp add: invoke_effect assign_tx_eq)
qed

lemma effect_commute:
  "field_of c \<noteq> field_of d \<Longrightarrow> effect c (effect d t) = effect d (effect c t)"
  by (cases c; cases d) simp_all

lemma fold_effect_commute:
  "\<forall>d \<in> set ds. field_of d \<noteq> field_of c \<Longrightarrow>
   fold effect ds (effect c t) = effect c (fold effect ds t)"
proof (induction ds arbitrary: t)
  case Nil
  show ?case by simp
next
  case (Cons d ds)
  then have "effect d (effect c t) = effect c (effect d t)"
    by (simp add: effect_commute)
  with Cons show ?case by simp
qed

lemma fold_effect_reorder:
  "\<forall>f. filter (\<lambda>c. field_of c = f) cs = filter (\<lambda>c. field_of c = f) cs' \<Longrightarrow>
   fold effect cs t = fold effect cs' t"
proof (induction cs arbitrary: cs' t)
  case Nil
  have "cs' = []"
  proof (cases cs')
    case (Cons d ds)
    from Nil.prems have "filter (\<lambda>c. field_of c = field_of d) [] = filter (\<lambda>c. field_of c = field_of d) cs'"
      by (rule spec)
    with Cons show ?thesis by simp
  qed simp
  then show ?case by simp
next
  case (Cons c cs)
  from Cons.prems
  have "filter (\<lambda>x. field_of x = field_of c) (c # cs) = filter (\<lambda>x. field_of x = field_of c) cs'"
    by (rule spec)
  then have "filter (\<lambda>x. field_of x = field_of c) cs' = c # filter (\<lambda>x. field_of x = field_of c) cs"
    by simp
  then obtain us vs where cs': "cs' = us @ c # vs"
    and us: "\<forall>u \<in> set us. field_of u \<noteq> field_of c"
    and vs: "filter (\<lambda>x. field_of x = field_of c) cs = filter (\<lambda>x. field_of x = field_of c) vs"
    unfolding filter_eq_Cons_iff by blast
  have rest: "\<forall>f. filter (\<lambda>x. field_of x = f) cs = filter (\<lambda>x. field_of x = f) (us @ vs)"
  proof
    fix f
    show "filter (\<lambda>x. field_of x = f) cs = filter (\<lambda>x. field_of x = f) (us @ vs)"
    proof (cases "f = field_of c")
      case True
      with us vs show ?thesis by (simp add: filter_empty_conv)
    next
      case False
      from Cons.prems have "filter (\<lambda>x. field_of x = f) (c # cs) = filter (\<lambda>x. field_of x = f) cs'"
        by (rule spec)
      with False show ?thesis by (auto simp: cs')
    qed
  qed
  have "fold effect cs' t = fold effect vs (effect c (fold effect us t))"
    by (simp add: cs')
  also have "\<dots> = fold effect vs (fold effect us (effect c t))"
    using us by (simp add: fold_effect_commute)
  also have "\<dots> = fold effect (us @ vs) (effect c t)"
    by simp
  also have "\<dots> = fold effect cs (effect c t)"
    using Cons.IH [OF rest] by simp
  finally show ?case by simp
qed


lemma held_example: "held example_heap 0 = Some example_tx"
  by (simp add: example_heap_def example_tx_def NewBuilder_def Let_def held_def load_def
      DefaultNonceKey_def)

lemma effect_idem:
  "field_of c \<noteq> FCalls \<Longrightarrow> field_of c \<noteq> FAccessList \<Longrightarrow> effect c (effect c t) = effect c t"
  by (cases c) simp_all

lemma Build_held: "held h b = Some t \<Longrightarrow> Build h b = Some (tx (builders h ! b))"
  by (auto simp: held_def Build_def load_def split: option.splits if_splits)

lemma txs_update_inject: "(h\<lparr>txs := a\<rparr> = h\<lparr>txs := b\<rparr>) = (a = b)"
  by (cases h) simp

lemma call_values_present_iff: "call_values_present cs \<longleftrightarrow> (\<forall>c \<in> set cs. Value c \<noteq> None)"
  by (induction cs) auto

lemma BuildAndValidate_held:
  "held h b = Some t \<Longrightarrow>
   BuildAndValidate h b =
     (case Validate t of Inl err \<Rightarrow> Some (Inl err) | Inr _ \<Rightarrow> Some (Inr (tx (builders h ! b))))"
  by (auto simp: BuildAndValidate_def held_def load_def split: option.splits if_splits)

section \<open>Facts about the codec\<close>

subsection \<open>Big-endian bytes\<close>

lemma be_nat_snoc: "be_nat (bs @ [b]) = be_nat bs * 256 + unat b"
  by (simp add: be_nat_def)

lemma be_nat_Nil: "be_nat [] = 0"
  by (simp add: be_nat_def)



lemma be_bytes_0: "be_bytes 0 = []"
  by (simp add: be_bytes.simps)

lemma unat_byte_of_nat: "n < 256 \<Longrightarrow> unat (of_nat n :: byte) = n"
  by (simp add: unat_of_nat)

lemma be_nat_be_bytes: "be_nat (be_bytes n) = n"
proof (induction n rule: be_bytes.induct)
  case (1 n)
  show ?case
  proof (cases "n = 0")
    case True
    then show ?thesis by (simp add: be_bytes.simps be_nat_Nil)
  next
    case False
    with 1 have "be_nat (be_bytes (n div 256)) = n div 256" by simp
    with False show ?thesis
      by (subst be_bytes.simps) (simp add: be_nat_snoc unat_byte_of_nat)
  qed
qed




lemma be_bytes_eq_Nil: "be_bytes n = [] \<longleftrightarrow> n = 0"
  by (subst be_bytes.simps) simp

lemma hd_be_bytes: "0 < n \<Longrightarrow> unat (hd (be_bytes n)) \<noteq> 0"
proof (induction n rule: be_bytes.induct)
  case (1 n)
  show ?case
  proof (cases "n div 256 = 0")
    case True
    with "1.prems" have "n < 256" "n mod 256 = n"
      by (auto simp: div_eq_0_iff)
    with True "1.prems" show ?thesis
      by (subst be_bytes.simps) (simp add: be_bytes_0 unat_byte_of_nat)
  next
    case False
    with 1 have "unat (hd (be_bytes (n div 256))) \<noteq> 0" by simp
    with False "1.prems" show ?thesis
      by (subst be_bytes.simps) (simp add: hd_append be_bytes_eq_Nil)
  qed
qed

lemma length_be_bytes: "n < 256 ^ k \<Longrightarrow> length (be_bytes n) \<le> k"
proof (induction n arbitrary: k rule: be_bytes.induct)
  case (1 n)
  show ?case
  proof (cases "n = 0")
    case True
    then show ?thesis by (simp add: be_bytes.simps)
  next
    case False
    with "1.prems" obtain j where k: "k = Suc j"
      by (cases k) auto
    with "1.prems" have "n div 256 < 256 ^ j"
      by (simp add: less_mult_imp_div_less mult.commute)
    with "1.IH" False have "length (be_bytes (n div 256)) \<le> j" by simp
    with False k show ?thesis
      by (subst be_bytes.simps) simp
  qed
qed

lemma length_be_fixed: "length (be_fixed k n) = k"
  by (induction k arbitrary: n) auto

lemma be_nat_be_fixed: "be_nat (be_fixed k n) = n mod 256 ^ k"
proof (induction k arbitrary: n)
  case 0
  show ?case by (simp add: be_nat_Nil)
next
  case (Suc k)
  have "n div 256 mod 256 ^ k * 256 + n mod 256 = n mod (256 * 256 ^ k)"
    by (simp add: mod_mult2_eq mult.commute)
  with Suc show ?case
    by (simp add: be_nat_snoc unat_byte_of_nat)
qed


subsection \<open>Items\<close>


lemma split_short_append:
  "length body = n \<Longrightarrow> split_short il n (body @ rest) = Some (il, body, rest)"
  by (simp add: split_short_def)

lemma split_long_append:
  assumes "56 \<le> n" "length body = n"
  shows "split_long il (length (be_bytes n)) (be_bytes n @ body @ rest) = Some (il, body, rest)"
proof -
  from assms have "0 < n" by simp
  then have "be_bytes n \<noteq> []" "unat (hd (be_bytes n)) \<noteq> 0"
    by (simp_all add: be_bytes_eq_Nil hd_be_bytes)
  with assms show ?thesis
    by (simp add: split_long_def be_nat_be_bytes Let_def)
qed

lemma length_be_bytes_64:
  assumes "56 \<le> n" "n < 2 ^ 64"
  shows "1 \<le> length (be_bytes n) \<and> length (be_bytes n) \<le> 8"
proof -
  from assms(2) have "n < 256 ^ 8" by simp
  then have "length (be_bytes n) \<le> 8" by (rule length_be_bytes)
  moreover from assms(1) have "be_bytes n \<noteq> []" by (simp add: be_bytes_eq_Nil)
  ultimately show ?thesis by (cases "be_bytes n") auto
qed

lemma split_item_string:
  assumes "length s < 2 ^ 64"
  shows "split_item (rlp_bytes s @ rest) = Some (False, s, rest)"
proof (cases "length s = 1 \<and> unat (hd s) < 128")
  case True
  then obtain b where "s = [b]" "unat b < 128"
    by (cases s) auto
  then show ?thesis by (simp add: rlp_bytes_def split_item_def)
next
  case False
  then have r: "rlp_bytes s = rlp_header 128 (length s) @ s"
    by (auto simp: rlp_bytes_def)
  show ?thesis
  proof (cases "length s < 56")
    case True
    from False True have "\<not> (128 + length s = 129 \<and> s @ rest \<noteq> [] \<and> unat (hd (s @ rest)) < 128)"
      by (cases s) auto
    with True show ?thesis
      unfolding r
      by (simp add: rlp_header_def split_item_def unat_byte_of_nat Let_def
          split_short_append del: hd_append2 of_nat_add)
  next
    case False
    then have n: "56 \<le> length s" by simp
    from length_be_bytes_64 [OF n assms] have l: "1 \<le> length (be_bytes (length s))"
      "length (be_bytes (length s)) \<le> 8" by simp_all
    moreover from n have "be_bytes (length s) \<noteq> []" by (auto simp: be_bytes_eq_Nil)
    ultimately show ?thesis
      unfolding r
      using n split_long_append [OF n refl, of False rest]
      by (simp add: rlp_header_def split_item_def unat_byte_of_nat Let_def del: of_nat_add)
  qed
qed

lemma split_item_list:
  assumes "length p < 2 ^ 64"
  shows "split_item (rlp_list p @ rest) = Some (True, p, rest)"
proof (cases "length p < 56")
  case True
  then show ?thesis
    by (simp add: rlp_list_def rlp_header_def split_item_def unat_byte_of_nat split_short_append
        Let_def del: of_nat_add)
next
  case False
  then have n: "56 \<le> length p" by simp
  from length_be_bytes_64 [OF n assms] have l: "1 \<le> length (be_bytes (length p))"
    "length (be_bytes (length p)) \<le> 8" by simp_all
  moreover from n have "be_bytes (length p) \<noteq> []" by (auto simp: be_bytes_eq_Nil)
  ultimately show ?thesis
    using n split_long_append [OF n refl, of True rest]
    by (simp add: rlp_list_def rlp_header_def split_item_def unat_byte_of_nat Let_def
        del: of_nat_add)
qed




subsection \<open>Fields\<close>

lemma length_rlp_bytes_ge: "length s \<le> length (rlp_bytes s)"
  by (simp add: rlp_bytes_def)

lemma length_rlp_list_ge: "length p \<le> length (rlp_list p)"
  by (simp add: rlp_list_def)

lemma rlp_header_nonempty: "rlp_header base n \<noteq> []"
  by (simp add: rlp_header_def)

lemma rlp_bytes_nonempty: "rlp_bytes s \<noteq> []"
  by (cases s) (auto simp: rlp_bytes_def rlp_header_nonempty)

lemma rlp_list_nonempty: "rlp_list p \<noteq> []"
  by (simp add: rlp_list_def rlp_header_nonempty)

lemma take_string_rlp:
  "length (rlp_bytes s) < 2 ^ 64 \<Longrightarrow> take_string (rlp_bytes s @ rest) = Some (s, rest)"
  using length_rlp_bytes_ge [of s] by (simp add: take_string_def split_item_string)

lemma take_list_rlp:
  "length (rlp_list p) < 2 ^ 64 \<Longrightarrow> take_list (rlp_list p @ rest) = Some (p, rest)"
  using length_rlp_list_ge [of p] by (simp add: take_list_def split_item_list)



lemma minimal_be_bytes: "minimal (be_bytes n)"
proof (cases "n = 0")
  case True
  then show ?thesis by (simp add: minimal_def be_bytes_0)
next
  case False
  then have "be_bytes n \<noteq> []" "unat (hd (be_bytes n)) \<noteq> 0"
    by (simp_all add: be_bytes_eq_Nil hd_be_bytes)
  then show ?thesis by (cases "be_bytes n") (simp_all add: minimal_def)
qed


lemma take_nullable_null: "take_nullable (enc_null @ rest) = Some (None, rest)"
  using split_item_list [of "[]" rest] by (simp add: take_nullable_def enc_null_def)

lemma take_nullable_rlp:
  "length (rlp_bytes s) < 2 ^ 64 \<Longrightarrow> take_nullable (rlp_bytes s @ rest) = Some (Some s, rest)"
  using length_rlp_bytes_ge [of s] by (simp add: take_nullable_def split_item_string)


lemma take_big_enc:
  "natural v \<Longrightarrow> length (enc_big v) < 2 ^ 64 \<Longrightarrow> take_big (enc_big v @ rest) = Some (v, rest)"
  by (cases v)
     (simp_all add: natural_def take_big_def enc_big_def enc_uint_def take_nullable_null
        take_nullable_rlp minimal_be_bytes be_nat_be_bytes)


lemma length_be_bytes_u64: "length (be_bytes (unat (w :: uint64))) \<le> 8"
proof -
  have "unat w < 2 ^ 64" using unsigned_less [of w, where 'a = nat] by simp
  then have "unat w < 256 ^ 8" by simp
  then show ?thesis by (rule length_be_bytes)
qed

lemma length_rlp_bytes_le: "length (rlp_bytes s) \<le> length s + 9" if "length s < 2 ^ 64"
proof (cases "length s < 56")
  case True
  then show ?thesis by (simp add: rlp_bytes_def rlp_header_def)
next
  case False
  then have "56 \<le> length s" by simp
  from length_be_bytes_64 [OF this that] show ?thesis
    by (simp add: rlp_bytes_def rlp_header_def)
qed

lemma take_u64_enc: "take_u64 (enc_u64 w @ rest) = Some (w, rest)"
proof -
  have l: "length (be_bytes (unat w)) \<le> 8" by (rule length_be_bytes_u64)
  then have "length (rlp_bytes (be_bytes (unat w))) \<le> 17"
    using length_rlp_bytes_le [of "be_bytes (unat w)"] by simp
  then have "length (rlp_bytes (be_bytes (unat w))) < 2 ^ 64" by simp
  with l show ?thesis
    by (simp add: take_u64_def enc_u64_def enc_uint_def take_string_rlp minimal_be_bytes
        be_nat_be_bytes)
qed


lemma fixed_word_160: "(of_nat (be_nat (be_fixed 20 (unat (a :: Address)))) :: Address) = a"
proof -
  have "unat a < 2 ^ 160" using unsigned_less [of a, where 'a = nat] by simp
  then have "unat a mod 256 ^ 20 = unat a" by simp
  then show ?thesis by (simp add: be_nat_be_fixed)
qed

lemma fixed_word_256: "(of_nat (be_nat (be_fixed 32 (unat (h :: Hash)))) :: Hash) = h"
proof -
  have "unat h < 2 ^ 256" using unsigned_less [of h, where 'a = nat] by simp
  then have "unat h mod 256 ^ 32 = unat h" by simp
  then show ?thesis by (simp add: be_nat_be_fixed)
qed



lemma take_string_small:
  "length s \<le> 55 \<Longrightarrow> take_string (rlp_bytes s @ rest) = Some (s, rest)"
  by (simp add: take_string_def split_item_string)

lemma take_address_enc: "take_address (enc_address a @ rest) = Some (a, rest)"
  by (simp add: take_address_def enc_address_def take_string_small
      length_be_fixed fixed_word_160)


lemma take_hash_enc: "take_hash (enc_hash h @ rest) = Some (h, rest)"
  by (simp add: take_hash_def enc_hash_def take_string_small
      length_be_fixed fixed_word_256)


lemma be_fixed_nonempty: "0 < k \<Longrightarrow> be_fixed k n \<noteq> []"
  using length_be_fixed [of k n] by auto

lemma take_to_enc: "take_to (enc_to to @ rest) = Some (to, rest)"
  by (cases to)
     (simp_all add: take_to_def enc_to_def enc_address_def take_string_small
        length_be_fixed fixed_word_160 be_fixed_nonempty)


lemma take_data_enc:
  "length (enc_data d) < 2 ^ 64 \<Longrightarrow> take_data (enc_data d @ rest) = Some (d, rest)"
  by (cases d) (simp_all add: take_data_def enc_data_def take_nullable_null take_nullable_rlp)


lemma take_parity_enc: "take_parity (enc_parity y @ rest) = Some (y, rest)"
  by (simp add: take_parity_def enc_parity_def take_string_small)


lemma take_signature_enc: "take_signature (enc_signature sg @ rest) = Some (sg, rest)"
  by (simp add: take_signature_def enc_signature_def take_hash_enc take_parity_enc)


lemma take_many_enc:
  assumes "\<And>x rest. x \<in> set xs \<Longrightarrow> p (e x @ rest) = Some (x, rest)"
    and "\<And>x. x \<in> set xs \<Longrightarrow> e x \<noteq> []"
    and "length xs \<le> n"
  shows "take_many p n (concat (map e xs)) = Some xs"
  using assms
proof (induction xs arbitrary: n)
  case Nil
  then show ?case by (cases n) simp_all
next
  case (Cons x xs)
  then obtain m where n: "n = Suc m" "length xs \<le> m"
    by (cases n) auto
  from Cons.prems(1) [of x "concat (map e xs)"]
  have "p (e x @ concat (map e xs)) = Some (x, concat (map e xs))" by simp
  moreover have "take_many p m (concat (map e xs)) = Some xs"
    using Cons.prems n by (intro Cons.IH) auto
  moreover have "e x \<noteq> []" using Cons.prems(2) by simp
  ultimately show ?case by (simp add: n)
qed

lemma length_concat_ge:
  "(\<And>x. x \<in> set xs \<Longrightarrow> e x \<noteq> []) \<Longrightarrow> length xs \<le> length (concat (map e xs))"
proof (induction xs)
  case Nil
  show ?case by simp
next
  case (Cons x xs)
  then have "e x \<noteq> []" "length xs \<le> length (concat (map e xs))" by simp_all
  then show ?case by (cases "e x") simp_all
qed

lemma take_all_enc:
  assumes "\<And>x rest. x \<in> set xs \<Longrightarrow> p (e x @ rest) = Some (x, rest)"
    and "\<And>x. x \<in> set xs \<Longrightarrow> e x \<noteq> []"
  shows "take_all p (concat (map e xs)) = Some xs"
  unfolding take_all_def
  by (rule take_many_enc) (use assms length_concat_ge [of xs e] in auto)



lemma take_call_enc:
  assumes "wf_call c" "length (enc_call c) < 2 ^ 64"
  shows "take_call (enc_call c @ rest) = Some (c, rest)"
proof -
  let ?p = "enc_to (To c) @ enc_big (Value c) @ enc_data (Data c)"
  from assms(2) have l: "length (rlp_list ?p) < 2 ^ 64"
    by (simp add: enc_call_def)
  with length_rlp_list_ge [of ?p] have "length ?p < 2 ^ 64" by simp
  then have "length (enc_big (Value c)) < 2 ^ 64" "length (enc_data (Data c)) < 2 ^ 64"
    by simp_all
  with assms(1) l show ?thesis
    using take_data_enc [of "Data c" "[]"]
    by (simp add: take_call_def enc_call_def take_list_rlp take_to_enc take_big_enc wf_call_def)
qed


lemma enc_hash_nonempty: "enc_hash h \<noteq> []"
  by (simp add: enc_hash_def rlp_bytes_nonempty)

lemma take_hashes_enc: "take_all take_hash (concat (map enc_hash hs)) = Some hs"
  by (rule take_all_enc) (simp_all add: take_hash_enc enc_hash_nonempty)


lemma take_access_tuple_enc:
  assumes "length (enc_access_tuple a) < 2 ^ 64"
  shows "take_access_tuple (enc_access_tuple a @ rest) = Some (a, rest)"
proof -
  let ?k = "rlp_list (concat (map enc_hash (StorageKeys a)))"
  let ?p = "enc_address (Address a) @ ?k"
  from assms have l: "length (rlp_list ?p) < 2 ^ 64"
    by (simp add: enc_access_tuple_def)
  with length_rlp_list_ge [of ?p] have "length ?p < 2 ^ 64" by simp
  then have "length ?k < 2 ^ 64" by simp
  with l show ?thesis
    using take_list_rlp [of "concat (map enc_hash (StorageKeys a))" "[]"]
    by (simp add: take_access_tuple_def enc_access_tuple_def take_list_rlp take_address_enc
        take_hashes_enc)
qed


lemma enc_signature_nonempty: "enc_signature sg \<noteq> []"
  by (simp add: enc_signature_def enc_hash_nonempty)

lemma take_signatures_enc:
  "sg = None \<longrightarrow> fp = None \<Longrightarrow>
   take_signatures (enc_optional_signature sg @ enc_optional_signature fp) = Some (sg, fp)"
  using take_signature_enc [of _ "[]"]
  by (cases sg; cases fp)
     (simp_all add: take_signatures_def enc_optional_signature_def take_signature_enc
        enc_signature_nonempty)


subsection \<open>Transactions\<close>

lemma length_part_concat: "x \<in> set xs \<Longrightarrow> length (e x) \<le> length (concat (map e xs))"
  by (induction xs) auto

lemma enc_call_nonempty: "enc_call c \<noteq> []"
  by (simp add: enc_call_def rlp_list_nonempty)

lemma enc_access_tuple_nonempty: "enc_access_tuple a \<noteq> []"
  by (simp add: enc_access_tuple_def rlp_list_nonempty)

lemma take_calls_enc:
  assumes "list_all wf_call cs" "length (rlp_list (concat (map enc_call cs))) < 2 ^ 64"
  shows "take_all take_call (concat (map enc_call cs)) = Some cs"
proof (rule take_all_enc)
  fix c rest
  assume c: "c \<in> set cs"
  from length_part_concat [OF c, of enc_call] length_rlp_list_ge [of "concat (map enc_call cs)"] assms(2)
  have "length (enc_call c) < 2 ^ 64" by simp
  moreover from c assms(1) have "wf_call c" by (simp add: list_all_iff)
  ultimately show "take_call (enc_call c @ rest) = Some (c, rest)"
    by (rule take_call_enc [rotated])
qed (rule enc_call_nonempty)

lemma take_access_list_enc:
  assumes "length (rlp_list (concat (map enc_access_tuple al))) < 2 ^ 64"
  shows "take_all take_access_tuple (concat (map enc_access_tuple al)) = Some al"
proof (rule take_all_enc)
  fix a rest
  assume a: "a \<in> set al"
  from length_part_concat [OF a, of enc_access_tuple]
    length_rlp_list_ge [of "concat (map enc_access_tuple al)"] assms
  have "length (enc_access_tuple a) < 2 ^ 64" by simp
  then show "take_access_tuple (enc_access_tuple a @ rest) = Some (a, rest)"
    by (rule take_access_tuple_enc)
qed (rule enc_access_tuple_nonempty)



lemma decode_payload_enc:
  assumes "encodable t"
  shows "decode_payload (enc_payload t) = Some t"
proof -
  have "length (rlp_list (enc_payload t)) < 2 ^ 64"
    using assms by (simp add: encodable_def encode_tx_def)
  with length_rlp_list_ge [of "enc_payload t"] have "length (enc_payload t) < 2 ^ 64"
    by simp
  then have l: "length (enc_big (ChainID t)) < 2 ^ 64" "length (enc_big (NonceKey t)) < 2 ^ 64"
    "length (enc_big (MaxPriorityFeePerGas t)) < 2 ^ 64"
    "length (enc_big (MaxFeePerGas t)) < 2 ^ 64"
    "length (rlp_list (concat (map enc_call (Calls t)))) < 2 ^ 64"
    "length (rlp_list (concat (map enc_access_tuple (AccessList t)))) < 2 ^ 64"
    by (simp_all add: enc_payload_def enc_fields_def)
  from assms have p: "natural (ChainID t)" "natural (NonceKey t)"
    "natural (MaxPriorityFeePerGas t)" "natural (MaxFeePerGas t)" "list_all wf_call (Calls t)"
    "Signature t = None \<longrightarrow> FeePayerSignature t = None"
    by (simp_all add: encodable_def)
  have "decode_payload (enc_payload t) =
          Some \<lparr>ChainID = ChainID t, MaxPriorityFeePerGas = MaxPriorityFeePerGas t,
                MaxFeePerGas = MaxFeePerGas t, Gas = Gas t, Calls = Calls t,
                AccessList = AccessList t, NonceKey = NonceKey t, Nonce = Nonce t,
                ValidBefore = ValidBefore t, ValidAfter = ValidAfter t, FeeToken = FeeToken t,
                Signature = Signature t, FeePayerSignature = FeePayerSignature t\<rparr>"
    using l p unfolding decode_payload_def enc_payload_def enc_fields_def
    by (simp add: take_big_enc take_u64_enc take_address_enc take_list_rlp take_calls_enc
        take_access_list_enc take_signatures_enc)
  then show ?thesis by simp
qed

lemma decode_encode:
  assumes "encodable t"
  shows "decode_tx (encode_tx t) = Inr t"
proof -
  have "length (rlp_list (enc_payload t)) < 2 ^ 64"
    using assms by (simp add: encodable_def encode_tx_def)
  then have "take_list (rlp_list (enc_payload t)) = Some (enc_payload t, [])"
    using take_list_rlp [of "enc_payload t" "[]"] by simp
  then show ?thesis
    by (simp add: decode_tx_def encode_tx_def decode_fields_def decode_payload_enc [OF assms])
qed



lemma decode_tx_errors:
  "decode_tx bs = Inl e \<Longrightarrow> e = ErrInvalidTransaction \<or> e = ErrInvalidTransactionType"
  by (auto simp: decode_tx_def split: list.splits if_splits option.splits)






subsection \<open>Hex strings\<close>










lemma wire_tx_signatures:
  "Signature (wire_tx sg fp) = sg" "FeePayerSignature (wire_tx sg fp) = fp"
  "(wire_tx sg fp)\<lparr>FeePayerSignature := fp'\<rparr> = wire_tx sg fp'"
  "(wire_tx sg fp)\<lparr>Signature := sg'\<rparr> = wire_tx sg' fp"
  by (simp_all add: wire_tx_def)

subsection \<open>The example transactions\<close>

lemma be_bytes_numeral:
  "be_bytes (numeral k) = be_bytes (numeral k div 256) @ [of_nat (numeral k mod 256)]"
  by (subst be_bytes.simps) simp

lemma be_bytes_1: "be_bytes (Suc 0) = [1]"
  by (simp add: be_bytes.simps)

lemmas enc_defs = be_bytes_1 enc_big_def enc_u64_def enc_uint_def enc_address_def
  enc_call_def enc_to_def enc_data_def rlp_bytes_def rlp_list_def rlp_header_def
  be_bytes_numeral be_bytes_0 length_be_fixed

lemma length_enc_hash: "length (enc_hash h) = 33"
  by (simp add: enc_hash_def rlp_bytes_def rlp_header_def length_be_fixed)

lemma length_enc_address: "length (enc_address a) = 21"
  by (simp add: enc_address_def rlp_bytes_def rlp_header_def length_be_fixed)

lemma length_enc_parity: "length (enc_parity y) = 1"
  by (simp add: enc_parity_def rlp_bytes_def)

lemma length_enc_signature: "length (enc_signature sg) = 67"
  by (simp add: enc_signature_def length_enc_hash length_enc_parity)

lemma length_rlp_list_short: "length p < 56 \<Longrightarrow> length (rlp_list p) = Suc (length p)"
  by (simp add: rlp_list_def rlp_header_def)

lemma length_rlp_list_255:
  "56 \<le> length p \<Longrightarrow> length p < 256 \<Longrightarrow> length (rlp_list p) = length p + 2"
proof -
  assume a: "56 \<le> length p" "length p < 256"
  then have "be_bytes (length p) = be_bytes 0 @ [of_nat (length p)]"
    by (subst be_bytes.simps) auto
  with a show ?thesis
    by (simp add: rlp_list_def rlp_header_def be_bytes_0)
qed

lemma enc_big_42424: "enc_big (Some 42424) = [0x82, 0xa5, 0xb8]"
  by (simp add: enc_defs)

lemma enc_u64_100000: "enc_u64 100000 = [0x83, 0x01, 0x86, 0xa0]"
  by (simp add: enc_defs)

lemma enc_big_0: "enc_big (Some 0) = [0x80]"
  by (simp add: enc_defs)

lemma enc_u64_0: "enc_u64 0 = [0x80]"
  by (simp add: enc_defs)

lemma length_enc_fields_wire_tx: "length (enc_fields (wire_tx sg fp)) = 64"
proof -
  have "length (enc_call \<lparr>To = Some 0x1234567890123456789012345678901234567890, Value = Some 500,
                Data = Some [0xaa, 0xbb]\<rparr>) = 28"
    by (simp add: enc_defs)
  then show ?thesis
    by (simp add: wire_tx_def enc_fields_def length_enc_address length_rlp_list_short
        enc_big_42424 enc_u64_100000 enc_big_0 enc_u64_0)
qed

lemma length_encode_wire_tx: "length (encode_tx (wire_tx sg fp)) \<le> 201"
  by (cases sg; cases fp)
     (simp_all add: encode_tx_def enc_payload_def wire_tx_signatures enc_optional_signature_def
        length_enc_fields_wire_tx length_enc_signature length_rlp_list_255)

lemma encodable_wire_tx: "sg = None \<longrightarrow> fp = None \<Longrightarrow> encodable (wire_tx sg fp)"
proof -
  assume a: "sg = None \<longrightarrow> fp = None"
  have l: "length (encode_tx (wire_tx sg fp)) < 2 ^ 64"
    using length_encode_wire_tx [of sg fp] by simp
  have p: "natural (ChainID (wire_tx sg fp))" "natural (NonceKey (wire_tx sg fp))"
    "natural (MaxPriorityFeePerGas (wire_tx sg fp))" "natural (MaxFeePerGas (wire_tx sg fp))"
    "list_all wf_call (Calls (wire_tx sg fp))"
    by (simp_all add: wire_tx_def natural_def wf_call_def)
  have s: "Signature (wire_tx sg fp) = None \<longrightarrow> FeePayerSignature (wire_tx sg fp) = None"
    using a by (simp only: wire_tx_signatures)
  show ?thesis
    unfolding encodable_def using l p s by blast
qed






section \<open>The claims\<close>

text \<open>
  C2. \<open>Validate\<close> fails exactly when \<open>chainID\<close> is null or not positive, or \<open>gas\<close>
  is 0, or \<open>calls\<close> is empty, or some call's \<open>value\<close> is null, or \<open>nonceKey\<close> is
  null, and then always with \<open>ErrInvalidTransaction\<close>; every other transaction
  validates.
\<close>

theorem Validate_exactly:
  "Validate t =
     (if ChainID t = None \<or> (\<exists>c. ChainID t = Some c \<and> c \<le> 0) \<or> Gas t = 0 \<or> Calls t = []
         \<or> (\<exists>c \<in> set (Calls t). Value c = None) \<or> NonceKey t = None
      then Inl ErrInvalidTransaction else Inr ())"
  by (cases "ChainID t") (auto simp: Validate_def call_values_present_iff word_gt_0)

theorem Validate_exactly_witness:
  "Validate valid_tx = Inr ()
   \<and> Validate (valid_tx\<lparr>ChainID := None\<rparr>) = Inl ErrInvalidTransaction
   \<and> Validate (valid_tx\<lparr>ChainID := Some 0\<rparr>) = Inl ErrInvalidTransaction
   \<and> Validate (valid_tx\<lparr>Gas := 0\<rparr>) = Inl ErrInvalidTransaction
   \<and> Validate (valid_tx\<lparr>Calls := []\<rparr>) = Inl ErrInvalidTransaction
   \<and> Validate (valid_tx\<lparr>Calls := [\<lparr>To = Some 1, Value = None, Data = Some []\<rparr>]\<rparr>) = Inl ErrInvalidTransaction
   \<and> Validate (valid_tx\<lparr>NonceKey := None\<rparr>) = Inl ErrInvalidTransaction"
  using Validate_exactly [of valid_tx]
    Validate_exactly [of "valid_tx\<lparr>ChainID := None\<rparr>"]
    Validate_exactly [of "valid_tx\<lparr>ChainID := Some 0\<rparr>"]
    Validate_exactly [of "valid_tx\<lparr>Gas := 0\<rparr>"]
    Validate_exactly [of "valid_tx\<lparr>Calls := []\<rparr>"]
    Validate_exactly [of "valid_tx\<lparr>Calls := [\<lparr>To = Some 1, Value = None, Data = Some []\<rparr>]\<rparr>"]
    Validate_exactly [of "valid_tx\<lparr>NonceKey := None\<rparr>"]
  by (simp add: valid_tx_def)

text \<open>
  C6. On a builder holding \<open>t\<close>, \<open>AddCall\<close> appends one call whose \<open>To\<close> is the given
  address (never nil), and \<open>AddContractCreation\<close> one whose \<open>To\<close> is nil; in both a nil
  \<open>value\<close> becomes 0 and a nil \<open>data\<close> the empty byte sequence, and anything else is
  stored as given.
\<close>

theorem AddCall_defaults:
  assumes "held h b = Some t"
  shows "(\<exists>h' c. AddCall h b to val data = Some (h', b)
            \<and> held h' b = Some (t\<lparr>Calls := Calls t @ [c]\<rparr>)
            \<and> To c = Some to
            \<and> Value c = (case val of None \<Rightarrow> Some 0 | Some v \<Rightarrow> Some v)
            \<and> Data c = (case data of None \<Rightarrow> Some [] | Some d \<Rightarrow> Some d))
       \<and> (\<exists>h' c. AddContractCreation h b val data = Some (h', b)
            \<and> held h' b = Some (t\<lparr>Calls := Calls t @ [c]\<rparr>)
            \<and> To c = None
            \<and> Value c = (case val of None \<Rightarrow> Some 0 | Some v \<Rightarrow> Some v)
            \<and> Data c = (case data of None \<Rightarrow> Some [] | Some d \<Rightarrow> Some d))"
  using assms
  by (auto simp: AddCall_def AddContractCreation_def assign_tx_eq held_assigned Let_def split: option.splits)

theorem AddCall_defaults_witness:
  "held example_heap 0 = Some example_tx
   \<and> (\<exists>h'. AddCall example_heap 0 0x1234 None None = Some (h', 0)
         \<and> held h' 0 = Some (example_tx\<lparr>Calls := [\<lparr>To = Some 0x1234, Value = Some 0, Data = Some []\<rparr>]\<rparr>))
   \<and> (\<exists>h'. AddContractCreation example_heap 0 None None = Some (h', 0)
         \<and> held h' 0 = Some (example_tx\<lparr>Calls := [\<lparr>To = None, Value = Some 0, Data = Some []\<rparr>]\<rparr>))"
proof -
  have c: "Calls example_tx = []"
    by (simp add: example_tx_def)
  have e: "\<And>c::Call. To c = x \<and> Value c = y \<and> Data c = z \<Longrightarrow> c = \<lparr>To = x, Value = y, Data = z\<rparr>" for x y z
    by auto
  from AddCall_defaults [OF held_example, of "0x1234" None None]
  show ?thesis
    using held_example c by (auto dest!: e)
qed

text \<open>
  C7. The transaction held by the builder that \<open>NewBuilder(chainID)\<close> returns has the
  given \<open>chainID\<close>, both fee fields 0 and \<open>nonceKey\<close> the constant \<open>DefaultNonceKey\<close>.
\<close>

theorem NewBuilder_fields:
  "\<exists>t. held (fst (NewBuilder h chainID)) (snd (NewBuilder h chainID)) = Some t
      \<and> ChainID t = chainID
      \<and> MaxPriorityFeePerGas t = Some 0
      \<and> MaxFeePerGas t = Some 0
      \<and> NonceKey t = Some DefaultNonceKey"
  by (simp add: NewBuilder_def Let_def held_def load_def nth_append)

text \<open>
  C8. \<open>BuildAndValidate\<close> runs \<open>Validate\<close> on the held transaction: when that fails
  the result is the error \<open>ErrInvalidTransaction\<close> and no transaction, and when it
  succeeds the result is the pointer \<open>Build\<close> returns, which points to the held
  transaction.
\<close>

theorem BuildAndValidate_result:
  assumes "held h b = Some t"
  shows "(Validate t \<noteq> Inr () \<longrightarrow> BuildAndValidate h b = Some (Inl ErrInvalidTransaction))
       \<and> (Validate t = Inr () \<longrightarrow>
            (\<exists>p. BuildAndValidate h b = Some (Inr p) \<and> Build h b = Some p \<and> load (txs h) p = Some t))"
  using assms
  by (auto simp: BuildAndValidate_def Build_def held_def Validate_def split: option.splits if_splits sum.splits)

theorem BuildAndValidate_result_witness:
  "held example_heap 0 = Some example_tx \<and> Validate example_tx \<noteq> Inr ()
   \<and> BuildAndValidate example_heap 0 = Some (Inl ErrInvalidTransaction)
   \<and> held valid_heap 0 = Some valid_tx \<and> Validate valid_tx = Inr ()
   \<and> BuildAndValidate valid_heap 0 = Some (Inr 0) \<and> Build valid_heap 0 = Some 0
   \<and> load (txs valid_heap) 0 = Some valid_tx"
proof -
  have v: "held valid_heap 0 = Some valid_tx"
    by (simp add: valid_heap_def held_def load_def)
  have 1: "Validate example_tx \<noteq> Inr ()"
    by (simp add: Validate_def example_tx_def)
  have 2: "Validate valid_tx = Inr ()"
    by (simp add: Validate_def valid_tx_def)
  have 3: "Build valid_heap 0 = Some 0"
    by (simp add: Build_def valid_heap_def load_def)
  from BuildAndValidate_result [OF held_example] BuildAndValidate_result [OF v]
  show ?thesis using held_example v 1 2 3 by auto
qed

text \<open>
  C9, as amended. Every builder method succeeds whatever its arguments are, overwrites
  only the held transaction, with the assignment \<open>effect\<close>, and returns the handle it
  was called on; so does a whole chain. Two chains give the same result when each
  field sees its writes in the same order: the calls may be permuted as long as the
  relative order of the calls writing \<open>Calls\<close> (\<open>AddCall\<close>, \<open>AddContractCreation\<close>) and of
  those writing \<open>AccessList\<close> and each other field is kept. A \<open>Set\<close> call after which
  no call writes the same field decides the field: repeating it on the result changes
  nothing (last write wins).
\<close>

theorem builder_chain_reorder:
  assumes "held h b = Some t"
  shows "(\<exists>p. Build h b = Some p \<and> invoke h b c = Some (h\<lparr>txs := (txs h)[p := effect c t]\<rparr>, b))
       \<and> (\<exists>p. Build h b = Some p \<and> chain h b cs = Some (h\<lparr>txs := (txs h)[p := fold effect cs t]\<rparr>, b))
       \<and> ((\<forall>f. filter (\<lambda>x. field_of x = f) cs = filter (\<lambda>x. field_of x = f) cs') \<longrightarrow>
            chain h b cs = chain h b cs')
       \<and> (field_of c \<noteq> FCalls \<and> field_of c \<noteq> FAccessList
            \<and> (\<forall>d \<in> set after. field_of d \<noteq> field_of c) \<longrightarrow>
            (\<exists>h' u. chain h b (before @ c # after) = Some (h', b) \<and> held h' b = Some u \<and> effect c u = u))"
proof (intro conjI impI)
  show "\<exists>p. Build h b = Some p \<and> invoke h b c = Some (h\<lparr>txs := (txs h)[p := effect c t]\<rparr>, b)"
    using assms by (simp add: Build_held invoke_effect assign_tx_eq)
  show "\<exists>p. Build h b = Some p \<and> chain h b cs = Some (h\<lparr>txs := (txs h)[p := fold effect cs t]\<rparr>, b)"
    using assms by (simp add: Build_held chain_fold)
  show "chain h b cs = chain h b cs'"
    if "\<forall>f. filter (\<lambda>x. field_of x = f) cs = filter (\<lambda>x. field_of x = f) cs'"
    using assms fold_effect_reorder [OF that, of t] by (simp add: chain_fold)
  show "\<exists>h' u. chain h b (before @ c # after) = Some (h', b) \<and> held h' b = Some u \<and> effect c u = u"
    if c: "field_of c \<noteq> FCalls \<and> field_of c \<noteq> FAccessList \<and> (\<forall>d \<in> set after. field_of d \<noteq> field_of c)"
  proof -
    let ?u = "fold effect (before @ c # after) t"
    have "?u = effect c (fold effect after (fold effect before t))"
      using c by (simp add: fold_effect_commute)
    then have "effect c ?u = ?u"
      using c by (simp add: effect_idem)
    moreover have "held (h\<lparr>txs := (txs h)[tx (builders h ! b) := ?u]\<rparr>) b = Some ?u"
      using assms by (rule held_assigned)
    ultimately show ?thesis
      using assms chain_fold [of h b t "before @ c # after"] by blast
  qed
qed

theorem builder_chain_reorder_witness:
  "held example_heap 0 = Some example_tx
   \<and> chain example_heap 0 [CallSetGas 100000, CallSetNonce 5, CallAddCall 1 None None, CallSetNonce 7]
     = chain example_heap 0 [CallSetNonce 5, CallAddCall 1 None None, CallSetNonce 7, CallSetGas 100000]
   \<and> (\<exists>h' u. chain example_heap 0 ([CallSetNonce 5] @ CallSetNonce 7 # [CallSetGas 100000]) = Some (h', 0)
         \<and> held h' 0 = Some u \<and> effect (CallSetNonce 7) u = u)"
proof -
  have f: "\<forall>f. filter (\<lambda>x. field_of x = f) [CallSetGas 100000, CallSetNonce 5, CallAddCall 1 None None, CallSetNonce 7]
             = filter (\<lambda>x. field_of x = f) [CallSetNonce 5, CallAddCall 1 None None, CallSetNonce 7, CallSetGas 100000]"
    by simp
  have l: "field_of (CallSetNonce 7) \<noteq> FCalls \<and> field_of (CallSetNonce 7) \<noteq> FAccessList
             \<and> (\<forall>d \<in> set [CallSetGas 100000]. field_of d \<noteq> field_of (CallSetNonce 7))"
    by simp
  from builder_chain_reorder [OF held_example,
      where c = "CallSetNonce 7"
        and cs = "[CallSetGas 100000, CallSetNonce 5, CallAddCall 1 None None, CallSetNonce 7]"
        and cs' = "[CallSetNonce 5, CallAddCall 1 None None, CallSetNonce 7, CallSetGas 100000]"
        and before = "[CallSetNonce 5]" and after = "[CallSetGas 100000]"]
  show ?thesis using f l held_example by blast
qed

text \<open>
  C9 as stated fails: \<open>AddCall\<close> and \<open>AddContractCreation\<close> are two different methods,
  each called once, and the two orders of calling them give different transactions.
\<close>

theorem builder_permutation_counterexample:
  "mset [CallAddCall 1 None None, CallAddContractCreation None None]
     = mset [CallAddContractCreation None None, CallAddCall 1 None None]
   \<and> distinct (map method_of [CallAddCall 1 None None, CallAddContractCreation None None])
   \<and> chain example_heap 0 [CallAddCall 1 None None, CallAddContractCreation None None]
     \<noteq> chain example_heap 0 [CallAddContractCreation None None, CallAddCall 1 None None]"
proof -
  have "fold effect [CallAddCall 1 None None, CallAddContractCreation None None] example_tx
     \<noteq> fold effect [CallAddContractCreation None None, CallAddCall 1 None None] example_tx"
    by (simp add: example_tx_def)
  then have ne: "(txs example_heap)[tx (builders example_heap ! 0) :=
               fold effect [CallAddCall 1 None None, CallAddContractCreation None None] example_tx]
     \<noteq> (txs example_heap)[tx (builders example_heap ! 0) :=
               fold effect [CallAddContractCreation None None, CallAddCall 1 None None] example_tx]"
    by (simp add: example_heap_def NewBuilder_def Let_def)
  have "chain example_heap 0 [CallAddCall 1 None None, CallAddContractCreation None None]
     \<noteq> chain example_heap 0 [CallAddContractCreation None None, CallAddCall 1 None None]"
    unfolding chain_fold [OF held_example] using ne by (simp only: txs_update_inject prod.inject option.inject simp_thms)
  then show ?thesis by simp
qed

text \<open>
  C10. \<open>SetMaxFeePerGas\<close>, \<open>SetMaxPriorityFeePerGas\<close> and \<open>SetNonceKey\<close> store their
  argument as given, nil included; after \<open>SetNonceKey(nil)\<close> the held transaction has a
  nil \<open>NonceKey\<close> and \<open>BuildAndValidate\<close> fails with \<open>ErrInvalidTransaction\<close>.
\<close>

theorem big_setters_store_nil:
  assumes "held h b = Some t"
  shows "(\<exists>h'. SetMaxFeePerGas h b v = Some (h', b) \<and> held h' b = Some (t\<lparr>MaxFeePerGas := v\<rparr>))
       \<and> (\<exists>h'. SetMaxPriorityFeePerGas h b v = Some (h', b)
             \<and> held h' b = Some (t\<lparr>MaxPriorityFeePerGas := v\<rparr>))
       \<and> (\<exists>h'. SetNonceKey h b v = Some (h', b) \<and> held h' b = Some (t\<lparr>NonceKey := v\<rparr>)
             \<and> (v = None \<longrightarrow> BuildAndValidate h' b = Some (Inl ErrInvalidTransaction)))"
proof -
  let ?h = "h\<lparr>txs := (txs h)[tx (builders h ! b) := t\<lparr>NonceKey := v\<rparr>]\<rparr>"
  have k: "held ?h b = Some (t\<lparr>NonceKey := v\<rparr>)"
    using assms by (rule held_assigned)
  have "Validate (t\<lparr>NonceKey := None\<rparr>) = Inl ErrInvalidTransaction"
    by (simp add: Validate_def)
  then have "v = None \<longrightarrow> BuildAndValidate ?h b = Some (Inl ErrInvalidTransaction)"
    using BuildAndValidate_held [OF k] by (cases v) simp_all
  with k show ?thesis
    using assms
    by (simp add: SetMaxFeePerGas_def SetMaxPriorityFeePerGas_def SetNonceKey_def
        assign_tx_eq held_assigned)
qed

theorem big_setters_store_nil_witness:
  "held example_heap 0 = Some example_tx
   \<and> MaxFeePerGas example_tx = Some 0 \<and> MaxPriorityFeePerGas example_tx = Some 0
   \<and> NonceKey example_tx = Some DefaultNonceKey
   \<and> (\<exists>h'. SetMaxFeePerGas example_heap 0 None = Some (h', 0)
         \<and> held h' 0 = Some (example_tx\<lparr>MaxFeePerGas := None\<rparr>))
   \<and> (\<exists>h'. SetMaxPriorityFeePerGas example_heap 0 None = Some (h', 0)
         \<and> held h' 0 = Some (example_tx\<lparr>MaxPriorityFeePerGas := None\<rparr>))
   \<and> (\<exists>h'. SetNonceKey example_heap 0 None = Some (h', 0)
         \<and> held h' 0 = Some (example_tx\<lparr>NonceKey := None\<rparr>)
         \<and> BuildAndValidate h' 0 = Some (Inl ErrInvalidTransaction))"
  using big_setters_store_nil [OF held_example, of None] held_example
  by (simp add: example_tx_def DefaultNonceKey_def)




text \<open>
  C3. \<open>SigningHash\<close> is the digest of the encoding with both signatures absent,
  whatever signatures the transaction carries; so setting either signature, and in
  particular \<open>AddFeePayerSignature\<close> after the sender has signed, leaves the hash the
  sender signed unchanged.
\<close>

theorem SigningHash_ignores_signatures:
  "SigningHash digest t = digest (encode_tx (t\<lparr>Signature := None, FeePayerSignature := None\<rparr>))
   \<and> SigningHash digest (t\<lparr>Signature := sg, FeePayerSignature := fp\<rparr>) = SigningHash digest t
   \<and> SigningHash digest (t\<lparr>FeePayerSignature := fp\<rparr>) = SigningHash digest t
   \<and> (AddFeePayerSignature digest sign t key = Inr t' \<longrightarrow>
        SigningHash digest t' = SigningHash digest t)"
  by (auto simp: SigningHash_def AddFeePayerSignature_def split: option.splits sum.splits)

theorem SigningHash_ignores_signatures_witness:
  "AddFeePayerSignature toy_digest toy_sign (wire_tx (Some sender_sig) None) 7
     = Inr (wire_tx (Some sender_sig)
              (Some (toy_signature 7 (toy_digest (encode_tx (wire_tx (Some sender_sig) None))))))
   \<and> SigningHash toy_digest
        (wire_tx (Some sender_sig)
           (Some (toy_signature 7 (toy_digest (encode_tx (wire_tx (Some sender_sig) None))))))
     = SigningHash toy_digest (wire_tx (Some sender_sig) None)
   \<and> SigningHash toy_digest (wire_tx (Some sender_sig) None)
     = toy_digest (encode_tx (wire_tx None None))"
proof -
  have a: "AddFeePayerSignature toy_digest toy_sign (wire_tx (Some sender_sig) None) 7
     = Inr (wire_tx (Some sender_sig)
              (Some (toy_signature 7 (toy_digest (encode_tx (wire_tx (Some sender_sig) None))))))"
    by (simp add: AddFeePayerSignature_def wire_tx_signatures toy_sign_def)
  from SigningHash_ignores_signatures [of toy_digest "wire_tx (Some sender_sig) None" None None
      toy_sign 7 "wire_tx (Some sender_sig)
              (Some (toy_signature 7 (toy_digest (encode_tx (wire_tx (Some sender_sig) None)))))"]
  show ?thesis
    using a by (simp add: wire_tx_signatures)
qed

text \<open>
  C4, as amended. \<open>AddFeePayerSignature\<close> fails with \<open>ErrMissingSenderSignature\<close> when
  the sender signature is absent, whatever the signing capability would answer. When it
  is present, the digest of the encoding taken without fee-payer signature is signed:
  if the signing capability fails, its error is returned and no transaction; if it
  gives a signature, the call succeeds and the result is the transaction with
  \<open>FeePayerSignature\<close> set to that signature, with the sender signature and every other
  field as before. The encoding that is signed carries the sender signature: for a
  transaction of the data model it decodes to the transaction with its sender signature
  and no fee-payer signature.
\<close>

theorem AddFeePayerSignature_order:
  "(Signature t = None \<longrightarrow>
      AddFeePayerSignature digest sign t key = Inl ErrMissingSenderSignature)
   \<and> (Signature t \<noteq> None \<longrightarrow>
        (\<forall>e. sign key (digest (encode_tx (t\<lparr>FeePayerSignature := None\<rparr>))) = Inl e \<longrightarrow>
             AddFeePayerSignature digest sign t key = Inl e)
        \<and> (\<forall>sg. sign key (digest (encode_tx (t\<lparr>FeePayerSignature := None\<rparr>))) = Inr sg \<longrightarrow>
             AddFeePayerSignature digest sign t key = Inr (t\<lparr>FeePayerSignature := Some sg\<rparr>))
        \<and> (\<forall>t'. AddFeePayerSignature digest sign t key = Inr t' \<longrightarrow>
               Signature t' = Signature t \<and> FeePayerSignature t' \<noteq> None
               \<and> t'\<lparr>FeePayerSignature := FeePayerSignature t\<rparr> = t)
        \<and> (encodable (t\<lparr>FeePayerSignature := None\<rparr>) \<longrightarrow>
              decode_tx (encode_tx (t\<lparr>FeePayerSignature := None\<rparr>))
                = Inr (t\<lparr>FeePayerSignature := None\<rparr>)))"
  by (auto simp: AddFeePayerSignature_def decode_encode split: option.splits sum.splits)

theorem AddFeePayerSignature_order_witness:
  "AddFeePayerSignature toy_digest toy_sign (wire_tx None None) 7 = Inl ErrMissingSenderSignature
   \<and> AddFeePayerSignature toy_digest toy_sign (wire_tx None None) 0 = Inl ErrMissingSenderSignature
   \<and> AddFeePayerSignature toy_digest toy_sign (wire_tx (Some sender_sig) None) 7
     = Inr (wire_tx (Some sender_sig)
              (Some (toy_signature 7 (toy_digest (encode_tx (wire_tx (Some sender_sig) None))))))
   \<and> encodable (wire_tx (Some sender_sig) None)
   \<and> decode_tx (encode_tx (wire_tx (Some sender_sig) None)) = Inr (wire_tx (Some sender_sig) None)"
proof -
  have e: "encodable (wire_tx (Some sender_sig) None)"
    by (simp add: encodable_wire_tx)
  from AddFeePayerSignature_order [where t = "wire_tx None None" and digest = toy_digest
      and sign = toy_sign and key = 7]
    AddFeePayerSignature_order [where t = "wire_tx None None" and digest = toy_digest
      and sign = toy_sign and key = 0]
    AddFeePayerSignature_order [where t = "wire_tx (Some sender_sig) None" and digest = toy_digest
      and sign = toy_sign and key = 7]
  show ?thesis
    using e by (simp add: wire_tx_signatures toy_sign_def)
qed

text \<open>
  C4 as stated fails: on a transaction that carries a sender signature the call does
  not succeed when the signing capability rejects the key.
\<close>

theorem AddFeePayerSignature_signing_failure_counterexample:
  "Signature (wire_tx (Some sender_sig) None) \<noteq> None
   \<and> AddFeePayerSignature toy_digest toy_sign (wire_tx (Some sender_sig) None) 0
       = Inl ErrInvalidPrivateKey"
  by (simp add: AddFeePayerSignature_def wire_tx_signatures toy_sign_def)



end
